theory Spec2Isabelle
  imports Main
begin

section \<open>Data model\<close>

text \<open>
  Strings are \<open>char list\<close>. The model covers ASCII text, which is what environment
  variable names are made of: \<open>toUpperCase\<close> maps the letters \<open>a\<close> to \<open>z\<close> to
  \<open>A\<close> to \<open>Z\<close> and leaves every other character alone. A logical key is a string
  (for a string, \<open>key.toString()\<close> is the key itself).

  The interface \<open>Environment\<close> is \<open>{ [key: string]: string | undefined }\<close>: a property
  is either not there, or there and bound to a string, or there and bound to
  \<open>undefined\<close>. An object is a partial map from property names to such values; the map
  gives what \<open>Reflect.has\<close> and \<open>Reflect.get\<close> see under the names the resolver asks
  for, which are upper-cased candidate keys. The properties every object inherits from
  \<open>Object.prototype\<close> are left out of the map: their names contain lower-case letters, and
  no candidate key does (\<open>toUpperCase_not_lower\<close> below).
\<close>

datatype jsvalue = Undefined | Str string

text \<open>
  The field \<open>environment\<close> of a resolver holds whatever the constructor read from its
  options. Built from well-typed options that is an object; \<open>Env.with\<close> hands the
  constructor the resolver's environment as its options, and then the field may hold the
  string found under the property \<open>environment\<close> of that object: a primitive, on which
  \<open>Reflect.has\<close> and \<open>Reflect.get\<close> raise a \<open>TypeError\<close>.
\<close>

datatype Environment = Object "string \<rightharpoonup> jsvalue" | Primitive string

record EnvOptions =
  opt_namespace :: "string option"
  opt_prefix :: "string option"
  opt_environment :: "Environment option"
  opt_target :: "string option"

record Env =
  environment :: Environment
  prefix :: string
  namespace :: string
  target :: string

datatype error = MissingEnvironmentKeyError (message: string) | TypeError

section \<open>String primitives of the host\<close>

definition isNamespacePattern :: "char \<Rightarrow> bool" where
  "isNamespacePattern c = (c = CHR ''_'' \<or> c = CHR ''.'')"

text \<open>
  \<open>s.split(/[_\.]/)\<close>: the pattern matches exactly one character, so the string is cut
  at every delimiter and the pieces between two cuts are kept, empty or not; the empty
  string gives one empty piece.
\<close>

fun split_NamespacePattern :: "string \<Rightarrow> string list" where
  "split_NamespacePattern [] = [[]]"
| "split_NamespacePattern (c # cs) =
     (if isNamespacePattern c then [] # split_NamespacePattern cs
      else (case split_NamespacePattern cs of
              [] \<Rightarrow> [[c]]
            | t # ts \<Rightarrow> (c # t) # ts))"

text \<open>\<open>xs.join(sep)\<close> on an array of strings.\<close>

fun join :: "string \<Rightarrow> string list \<Rightarrow> string" where
  "join sep [] = []"
| "join sep [x] = x"
| "join sep (x # y # ys) = x @ sep @ join sep (y # ys)"

definition toUpperCase_char :: "char \<Rightarrow> char" where
  "toUpperCase_char c =
     (case map_of (zip ''abcdefghijklmnopqrstuvwxyz'' ''ABCDEFGHIJKLMNOPQRSTUVWXYZ'') c of
        None \<Rightarrow> c
      | Some u \<Rightarrow> u)"

definition toUpperCase :: "string \<Rightarrow> string" where
  "toUpperCase s = map toUpperCase_char s"

section \<open>The resolver\<close>

definition DefaultEnvironment :: Environment where
  "DefaultEnvironment = Object Map.empty"

definition DefaultNamespace :: string where
  "DefaultNamespace = ''''"

definition DefaultPrefix :: string where
  "DefaultPrefix = ''''"

definition DefaultTarget :: string where
  "DefaultTarget = ''development''"

definition new_MissingEnvironmentKeyError :: "string list \<Rightarrow> error" where
  "new_MissingEnvironmentKeyError keys =
     MissingEnvironmentKeyError (join '' or '' keys @ '' must be provided.'')"

text \<open>The constructor: each option that is \<open>undefined\<close> takes its default.\<close>

definition Env_constructor :: "EnvOptions \<Rightarrow> Env" where
  "Env_constructor options =
     \<lparr> environment = (case opt_environment options of None \<Rightarrow> DefaultEnvironment | Some v \<Rightarrow> v),
       prefix = (case opt_prefix options of None \<Rightarrow> DefaultPrefix | Some v \<Rightarrow> v),
       namespace = (case opt_namespace options of None \<Rightarrow> DefaultNamespace | Some v \<Rightarrow> v),
       target = (case opt_target options of None \<Rightarrow> DefaultTarget | Some v \<Rightarrow> v) \<rparr>"

definition prefixes :: "Env \<Rightarrow> string list" where
  "prefixes this = split_NamespacePattern (prefix this)"

definition namespaces :: "Env \<Rightarrow> string list" where
  "namespaces this = split_NamespacePattern (namespace this)"

definition targets :: "Env \<Rightarrow> string list" where
  "targets this = split_NamespacePattern (target this)"

definition keysFor :: "string \<Rightarrow> string list" where
  "keysFor key = split_NamespacePattern key"

definition withPrefixesNamespacesTargetsKeyFor :: "Env \<Rightarrow> string list \<Rightarrow> string" where
  "withPrefixesNamespacesTargetsKeyFor this keys =
     toUpperCase (join ''_'' (prefixes this @ namespaces this @ targets this @ keys))"

definition withNamespacesTargetsKeyFor :: "Env \<Rightarrow> string list \<Rightarrow> string" where
  "withNamespacesTargetsKeyFor this keys =
     toUpperCase (join ''_'' (namespaces this @ targets this @ keys))"

definition withPrefixesNamespacesKeyFor :: "Env \<Rightarrow> string list \<Rightarrow> string" where
  "withPrefixesNamespacesKeyFor this keys =
     toUpperCase (join ''_'' (prefixes this @ namespaces this @ keys))"

definition withNamespacesKeyFor :: "Env \<Rightarrow> string list \<Rightarrow> string" where
  "withNamespacesKeyFor this keys = toUpperCase (join ''_'' (namespaces this @ keys))"

definition withPrefixesKeyFor :: "Env \<Rightarrow> string list \<Rightarrow> string" where
  "withPrefixesKeyFor this keys = toUpperCase (join ''_'' (prefixes this @ keys))"

definition withKeyFor :: "string list \<Rightarrow> string" where
  "withKeyFor keys = toUpperCase (join ''_'' keys)"

definition fetchKeysFor :: "Env \<Rightarrow> string list \<Rightarrow> string list" where
  "fetchKeysFor this keys =
     [ withPrefixesNamespacesTargetsKeyFor this keys,
       withNamespacesTargetsKeyFor this keys,
       withPrefixesNamespacesKeyFor this keys,
       withNamespacesKeyFor this keys,
       withPrefixesKeyFor this keys,
       withKeyFor keys ]"

text \<open>\<open>Reflect.has(this.environment, key)\<close>: whether the property is there.\<close>

definition has :: "Env \<Rightarrow> string \<Rightarrow> error + bool" where
  "has this key =
     (case environment this of
        Object m \<Rightarrow> Inr (m key \<noteq> None)
      | Primitive s \<Rightarrow> Inl TypeError)"

text \<open>\<open>keys.some(has)\<close> and \<open>keys.find(has)\<close>: left to right, stopping at the first hit.\<close>

fun some :: "Env \<Rightarrow> string list \<Rightarrow> error + bool" where
  "some this [] = Inr False"
| "some this (k # ks) =
     (case has this k of
        Inl err \<Rightarrow> Inl err
      | Inr True \<Rightarrow> Inr True
      | Inr False \<Rightarrow> some this ks)"

fun find_key :: "Env \<Rightarrow> string list \<Rightarrow> error + string option" where
  "find_key this [] = Inr None"
| "find_key this (k # ks) =
     (case has this k of
        Inl err \<Rightarrow> Inl err
      | Inr True \<Rightarrow> Inr (Some k)
      | Inr False \<Rightarrow> find_key this ks)"

text \<open>
  \<open>Reflect.get(this.environment, key)\<close>: the value of the property, \<open>undefined\<close> when
  it is not there. The key is what \<open>find\<close> returned; \<open>undefined\<close> as a property key is
  the name \<open>undefined\<close>.
\<close>

definition get :: "Env \<Rightarrow> string option \<Rightarrow> error + jsvalue" where
  "get this key =
     (case environment this of
        Object m \<Rightarrow>
          (case m (case key of None \<Rightarrow> ''undefined'' | Some k \<Rightarrow> k) of
             None \<Rightarrow> Inr Undefined
           | Some v \<Rightarrow> Inr v)
      | Primitive s \<Rightarrow> Inl TypeError)"

definition fetch :: "Env \<Rightarrow> string list \<Rightarrow> error + jsvalue" where
  "fetch this keys =
     (case some this keys of
        Inl err \<Rightarrow> Inl err
      | Inr True \<Rightarrow>
          (case find_key this keys of
             Inl err \<Rightarrow> Inl err
           | Inr k \<Rightarrow> get this k)
      | Inr False \<Rightarrow> Inl (new_MissingEnvironmentKeyError keys))"

definition required :: "Env \<Rightarrow> string \<Rightarrow> error + jsvalue" where
  "required this key = fetch this (fetchKeysFor this (keysFor key))"

text \<open>
  \<open>optional\<close>: the \<open>catch\<close> takes any error; \<open>if (defaultValue)\<close> holds for a string
  that is given and not empty.
\<close>

definition optional :: "Env \<Rightarrow> string \<Rightarrow> string option \<Rightarrow> error + jsvalue" where
  "optional this key defaultValue =
     (case required this key of
        Inr v \<Rightarrow> Inr v
      | Inl err \<Rightarrow>
          (case defaultValue of
             None \<Rightarrow> Inl err
           | Some d \<Rightarrow> if d \<noteq> [] then Inr (Str d) else Inl err))"

text \<open>
  \<open>with\<close> calls \<open>Reflect.construct(constructor, [this.environment, this.prefix,
  this.namespace, target])\<close>, that is \<open>new Env(this.environment, this.prefix,
  this.namespace, target)\<close>. The constructor has one parameter, \<open>options\<close>, so it
  receives \<open>this.environment\<close> and reads the properties \<open>environment\<close>, \<open>namespace\<close>,
  \<open>prefix\<close> and \<open>target\<close> of that value; the other three arguments are dropped.
  \<open>options_of\<close> is that reading: a property that is missing or \<open>undefined\<close> is an option
  not given, and a string has none of the four properties.
\<close>

definition property :: "Environment \<Rightarrow> string \<Rightarrow> string option" where
  "property v name =
     (case v of
        Object m \<Rightarrow> (case m name of Some (Str s) \<Rightarrow> Some s | _ \<Rightarrow> None)
      | Primitive s \<Rightarrow> None)"

definition options_of :: "Environment \<Rightarrow> EnvOptions" where
  "options_of v =
     \<lparr> opt_namespace = property v ''namespace'',
       opt_prefix = property v ''prefix'',
       opt_environment = map_option Primitive (property v ''environment''),
       opt_target = property v ''target'' \<rparr>"

definition Reflect_construct_Env :: "Environment \<Rightarrow> string \<Rightarrow> string \<Rightarrow> string \<Rightarrow> Env" where
  "Reflect_construct_Env a0 a1 a2 a3 = Env_constructor (options_of a0)"

definition Env_with :: "Env \<Rightarrow> string \<Rightarrow> Env" where
  "Env_with this tgt =
     Reflect_construct_Env (environment this) (prefix this) (namespace this) tgt"

text \<open>
  Resolvers are objects: a store holds the instances, a reference is an index into it, and
  \<open>new\<close> appends the instance it built. \<open>with_in\<close> is \<open>with\<close> called on the instance at
  a reference; it gives the reference of the new instance and the store after the call.
\<close>

type_synonym store = "Env list"

definition new_in :: "store \<Rightarrow> Env \<Rightarrow> nat \<times> store" where
  "new_in s e = (length s, s @ [e])"

definition with_in :: "store \<Rightarrow> nat \<Rightarrow> string \<Rightarrow> (nat \<times> store) option" where
  "with_in s this tgt =
     (if this < length s then Some (new_in s (Env_with (s ! this) tgt)) else None)"

section \<open>Auxiliary facts\<close>

lemmas cand_defs = fetchKeysFor_def keysFor_def withPrefixesNamespacesTargetsKeyFor_def
  withNamespacesTargetsKeyFor_def withPrefixesNamespacesKeyFor_def withNamespacesKeyFor_def
  withPrefixesKeyFor_def withKeyFor_def prefixes_def namespaces_def targets_def

lemmas upper_defs = toUpperCase_def toUpperCase_char_def

lemma some_Object:
  "environment e = Object m \<Longrightarrow> some e ks = Inr (\<exists>k\<in>set ks. m k \<noteq> None)"
  by (induction ks) (auto simp: has_def split: bool.splits)

lemma find_key_Object:
  "environment e = Object m \<Longrightarrow> find_key e ks = Inr (List.find (\<lambda>k. m k \<noteq> None) ks)"
  by (induction ks) (auto simp: has_def split: bool.splits)

lemma split_ne: "split_NamespacePattern s \<noteq> []"
  by (induction s) (auto split: list.splits)

text \<open>On an object, \<open>fetch\<close> is a search for the first key that is there.\<close>

lemma fetch_Object:
  assumes "environment e = Object m"
  shows "fetch e ks = (case List.find (\<lambda>k. m k \<noteq> None) ks of
                         None \<Rightarrow> Inl (new_MissingEnvironmentKeyError ks)
                       | Some k \<Rightarrow> Inr (the (m k)))"
proof (cases "List.find (\<lambda>k. m k \<noteq> None) ks")
  case None
  then have "\<not> (\<exists>k\<in>set ks. m k \<noteq> None)"
    by (simp add: find_None_iff)
  then show ?thesis
    using None assms by (simp add: fetch_def some_Object)
next
  case (Some k)
  then have k: "k \<in> set ks" "m k \<noteq> None"
    by (auto simp: find_Some_iff)
  then have "\<exists>k\<in>set ks. m k \<noteq> None" by blast
  then show ?thesis
    using Some k assms by (auto simp: fetch_def some_Object find_key_Object get_def)
qed

lemma find_first:
  "i < length ks \<Longrightarrow> P (ks ! i) \<Longrightarrow> \<forall>j<i. \<not> P (ks ! j) \<Longrightarrow> List.find P ks = Some (ks ! i)"
  by (auto simp: find_Some_iff)

lemma fetch_first:
  assumes "environment e = Object m" "i < length ks" "m (ks ! i) = Some v"
    and "\<forall>j<i. m (ks ! j) = None"
  shows "fetch e ks = Inr v"
proof -
  have "List.find (\<lambda>k. m k \<noteq> None) ks = Some (ks ! i)"
    using assms by (intro find_first) auto
  then show ?thesis using assms by (simp add: fetch_Object)
qed

lemma fetch_fails_iff:
  assumes "environment e = Object m"
  shows "(\<exists>err. fetch e ks = Inl err) \<longleftrightarrow> (\<forall>k\<in>set ks. m k = None)"
proof (cases "List.find (\<lambda>k. m k \<noteq> None) ks")
  case None
  have "fetch e ks = Inl (new_MissingEnvironmentKeyError ks)"
    unfolding fetch_Object [OF assms] None by simp
  moreover have "\<forall>k\<in>set ks. m k = None"
    using None by (simp add: find_None_iff)
  ultimately show ?thesis by simp
next
  case (Some k)
  have "fetch e ks = Inr (the (m k))"
    unfolding fetch_Object [OF assms] Some by simp
  moreover have "k \<in> set ks" "m k \<noteq> None"
    using Some by (auto simp: find_Some_iff)
  ultimately show ?thesis by auto
qed

lemma fetch_error:
  assumes "environment e = Object m" "fetch e ks = Inl err"
  shows "err = new_MissingEnvironmentKeyError ks"
proof (cases "List.find (\<lambda>k. m k \<noteq> None) ks")
  case None
  have "fetch e ks = Inl (new_MissingEnvironmentKeyError ks)"
    unfolding fetch_Object [OF assms(1)] None by simp
  with assms(2) show ?thesis by simp
next
  case (Some k)
  have "fetch e ks = Inr (the (m k))"
    unfolding fetch_Object [OF assms(1)] Some by simp
  with assms(2) show ?thesis by simp
qed

text \<open>
  No candidate key contains a lower-case letter, so none is the name of a property that a
  plain object inherits (\<open>constructor\<close>, \<open>toString\<close>, \<open>hasOwnProperty\<close> and the like):
  for the keys the resolver looks up, the own properties of the environment decide.
\<close>

lemma toUpperCase_char_not_lower:
  "toUpperCase_char c \<notin> set ''abcdefghijklmnopqrstuvwxyz''"
  by (simp add: toUpperCase_char_def)

lemma toUpperCase_not_lower:
  "c \<in> set (toUpperCase s) \<Longrightarrow> c \<notin> set ''abcdefghijklmnopqrstuvwxyz''"
  using toUpperCase_char_not_lower by (auto simp: toUpperCase_def)

section \<open>Candidate keys\<close>

text \<open>
  C1. For every logical key and every configuration, \<open>fetchKeysFor\<close> on the key's segments
  gives exactly six strings, each the upper-cased join with \<open>_\<close> of a sequence of
  segments, in the order P+N+T+K, N+T+K, P+N+K, N+K, P+K, K, where P, N, T and K are the
  segments of the prefix, the namespace, the target and the key; and these six, in this
  order, are what \<open>required\<close> searches.
\<close>

theorem fetchKeysFor_six_candidates:
  "fetchKeysFor this (keysFor key) =
     [ toUpperCase (join ''_'' (split_NamespacePattern (prefix this)
          @ split_NamespacePattern (namespace this)
          @ split_NamespacePattern (target this) @ split_NamespacePattern key)),
       toUpperCase (join ''_'' (split_NamespacePattern (namespace this)
          @ split_NamespacePattern (target this) @ split_NamespacePattern key)),
       toUpperCase (join ''_'' (split_NamespacePattern (prefix this)
          @ split_NamespacePattern (namespace this) @ split_NamespacePattern key)),
       toUpperCase (join ''_'' (split_NamespacePattern (namespace this)
          @ split_NamespacePattern key)),
       toUpperCase (join ''_'' (split_NamespacePattern (prefix this)
          @ split_NamespacePattern key)),
       toUpperCase (join ''_'' (split_NamespacePattern key)) ]
   \<and> length (fetchKeysFor this (keysFor key)) = 6
   \<and> required this key = fetch this (fetchKeysFor this (keysFor key))"
  by (simp add: cand_defs required_def)

text \<open>
  The six candidates of the key \<open>url\<close> under prefix \<open>some\<close>, namespace \<open>project\<close> and
  target \<open>test\<close>.
\<close>

theorem fetchKeysFor_six_candidates_witness:
  "fetchKeysFor
     \<lparr> environment = Object Map.empty, prefix = ''some'', namespace = ''project'',
       target = ''test'' \<rparr> (keysFor ''url'')
   = [''SOME_PROJECT_TEST_URL'', ''PROJECT_TEST_URL'', ''SOME_PROJECT_URL'', ''PROJECT_URL'',
      ''SOME_URL'', ''URL'']"
  using fetchKeysFor_six_candidates
    [of "\<lparr> environment = Object Map.empty, prefix = ''some'', namespace = ''project'',
           target = ''test'' \<rparr>" "''url''"]
  by (simp add: isNamespacePattern_def upper_defs)

section \<open>Lookup\<close>

text \<open>
  C2, as stated, fails when "present" is read as the specification defines it (a key bound
  to \<open>undefined\<close> is not present): with prefix \<open>some\<close>, namespace \<open>project\<close>, target
  \<open>test\<close> and environment \<open>{SOME_PROJECT_URL: undefined, URL: "b"}\<close>, the only candidate
  bound to a string is \<open>URL\<close>, yet \<open>required("url")\<close> stops at \<open>SOME_PROJECT_URL\<close>
  and returns \<open>undefined\<close>, not \<open>b\<close>.
\<close>

theorem required_undefined_shadows_counterexample:
  "fetchKeysFor
     \<lparr> environment = Object [''SOME_PROJECT_URL'' \<mapsto> Undefined, ''URL'' \<mapsto> Str ''b''],
       prefix = ''some'', namespace = ''project'', target = ''test'' \<rparr> (keysFor ''url'')
     = [''SOME_PROJECT_TEST_URL'', ''PROJECT_TEST_URL'', ''SOME_PROJECT_URL'', ''PROJECT_URL'',
        ''SOME_URL'', ''URL'']
   \<and> [''SOME_PROJECT_URL'' \<mapsto> Undefined, ''URL'' \<mapsto> Str ''b''] ''SOME_PROJECT_TEST_URL'' = None
   \<and> [''SOME_PROJECT_URL'' \<mapsto> Undefined, ''URL'' \<mapsto> Str ''b''] ''PROJECT_TEST_URL'' = None
   \<and> [''SOME_PROJECT_URL'' \<mapsto> Undefined, ''URL'' \<mapsto> Str ''b''] ''SOME_PROJECT_URL''
       = Some Undefined
   \<and> [''SOME_PROJECT_URL'' \<mapsto> Undefined, ''URL'' \<mapsto> Str ''b''] ''PROJECT_URL'' = None
   \<and> [''SOME_PROJECT_URL'' \<mapsto> Undefined, ''URL'' \<mapsto> Str ''b''] ''SOME_URL'' = None
   \<and> [''SOME_PROJECT_URL'' \<mapsto> Undefined, ''URL'' \<mapsto> Str ''b''] ''URL'' = Some (Str ''b'')
   \<and> required
      \<lparr> environment = Object [''SOME_PROJECT_URL'' \<mapsto> Undefined, ''URL'' \<mapsto> Str ''b''],
        prefix = ''some'', namespace = ''project'', target = ''test'' \<rparr> ''url'' = Inr Undefined
   \<and> required
      \<lparr> environment = Object [''SOME_PROJECT_URL'' \<mapsto> Undefined, ''URL'' \<mapsto> Str ''b''],
        prefix = ''some'', namespace = ''project'', target = ''test'' \<rparr> ''url'' \<noteq> Inr (Str ''b'')"
  by (simp add: required_def fetch_def has_def get_def cand_defs isNamespacePattern_def upper_defs)

text \<open>
  C2, amended. A candidate counts as there when the property exists in the environment,
  whatever it is bound to, \<open>undefined\<close> included. When the environment is an object,
  \<open>required\<close> returns the value bound to the first candidate, in the generated order, that
  is there: if the candidate at position \<open>i\<close> is bound to \<open>v\<close> (a string or \<open>undefined\<close>)
  and no candidate before it is there, the result is \<open>v\<close>, whatever the later candidates
  are bound to; and whenever at least one of the six candidates is there, there is such a
  first position and \<open>required\<close> succeeds with its value.
\<close>


theorem required_first_present:
  assumes "environment this = Object m"
    and "cs = fetchKeysFor this (keysFor key)"
  shows "(\<forall>i v. i < length cs \<and> m (cs ! i) = Some v \<and> (\<forall>j<i. m (cs ! j) = None) \<longrightarrow>
            required this key = Inr v)
       \<and> ((\<exists>c\<in>set cs. m c \<noteq> None) \<longrightarrow>
            (\<exists>i<length cs. \<exists>v. m (cs ! i) = Some v \<and> (\<forall>j<i. m (cs ! j) = None)
                \<and> required this key = Inr v))"
proof -
  have first: "required this key = Inr v"
    if "i < length cs" "m (cs ! i) = Some v" "\<forall>j<i. m (cs ! j) = None" for i v
    using fetch_first [OF assms(1) that] assms(2) by (simp add: required_def)
  have ex: "\<exists>i<length cs. \<exists>v. m (cs ! i) = Some v \<and> (\<forall>j<i. m (cs ! j) = None)
                \<and> required this key = Inr v"
    if "\<exists>c\<in>set cs. m c \<noteq> None"
  proof -
    from that obtain x where "List.find (\<lambda>k. m k \<noteq> None) cs = Some x"
      by (cases "List.find (\<lambda>k. m k \<noteq> None) cs") (auto simp: find_None_iff)
    then obtain i where i: "i < length cs" "m (cs ! i) \<noteq> None" "\<forall>j<i. m (cs ! j) = None"
      unfolding find_Some_iff by auto
    then obtain v where v: "m (cs ! i) = Some v" by auto
    with i first [of i v] show ?thesis by blast
  qed
  show ?thesis using first ex by blast
qed

text \<open>
  The example of the specification: prefix \<open>some\<close>, namespace \<open>project\<close>, target \<open>test\<close>, environment
  \<open>{SOME_PROJECT_URL: "a", URL: "b"}\<close>; the third candidate is the first one there, and
  its value wins over the value of \<open>URL\<close>.
\<close>

theorem required_first_present_witness:
  "required
     \<lparr> environment = Object [''SOME_PROJECT_URL'' \<mapsto> Str ''a'', ''URL'' \<mapsto> Str ''b''],
       prefix = ''some'', namespace = ''project'', target = ''test'' \<rparr> ''url'' = Inr (Str ''a'')"
proof -
  let ?m = "[''SOME_PROJECT_URL'' \<mapsto> Str ''a'', ''URL'' \<mapsto> Str ''b'']"
  let ?e = "\<lparr> environment = Object ?m, prefix = ''some'', namespace = ''project'',
              target = ''test'' \<rparr>"
  let ?cs = "[''SOME_PROJECT_TEST_URL'', ''PROJECT_TEST_URL'', ''SOME_PROJECT_URL'',
              ''PROJECT_URL'', ''SOME_URL'', ''URL'']"
  have e: "environment ?e = Object ?m" by simp
  have cs: "fetchKeysFor ?e (keysFor ''url'') = ?cs"
    by (simp add: cand_defs isNamespacePattern_def upper_defs)
  have "2 < length ?cs \<and> ?m (?cs ! 2) = Some (Str ''a'') \<and> (\<forall>j<2. ?m (?cs ! j) = None)"
    by (simp add: less_Suc_eq numeral_2_eq_2)
  then show ?thesis
    using required_first_present [OF e cs [symmetric]] by blast
qed

text \<open>
  C4, as stated, fails: a property bound to \<open>undefined\<close> is there for \<open>Reflect.has\<close>, so the
  candidate counts as present and \<open>required\<close> returns \<open>undefined\<close> instead of failing.
\<close>

theorem undefined_binding_counterexample:
  "has \<lparr> environment = Object [''URL'' \<mapsto> Undefined], prefix = '''', namespace = '''',
         target = '''' \<rparr> ''URL'' = Inr True
   \<and> required \<lparr> environment = Object [''URL'' \<mapsto> Undefined], prefix = '''', namespace = '''',
         target = '''' \<rparr> ''url'' = Inr Undefined"
  by (simp add: required_def fetch_def has_def get_def cand_defs isNamespacePattern_def upper_defs)

text \<open>
  C4, amended. On an object, a key is present exactly when the property exists, whatever
  it is bound to: a key bound to the empty string is present and its lookup gives the empty
  string, a key bound to \<open>undefined\<close> is present and its lookup gives \<open>undefined\<close>, and a key
  that is not in the object is not present and its lookup fails.
\<close>

theorem has_iff_property_exists:
  assumes "environment this = Object m"
  shows "has this key = Inr (key \<in> dom m)
       \<and> (m key = Some (Str '''') \<longrightarrow>
            has this key = Inr True \<and> fetch this [key] = Inr (Str ''''))
       \<and> (m key = Some Undefined \<longrightarrow>
            has this key = Inr True \<and> fetch this [key] = Inr Undefined)
       \<and> (m key = None \<longrightarrow>
            has this key = Inr False
            \<and> fetch this [key] = Inl (new_MissingEnvironmentKeyError [key]))"
  using assms by (auto simp: has_def fetch_def get_def dom_def)

theorem has_iff_property_exists_witness:
  "has \<lparr> environment = Object [''A'' \<mapsto> Str '''', ''B'' \<mapsto> Undefined], prefix = '''',
         namespace = '''', target = '''' \<rparr> ''A'' = Inr True
   \<and> fetch \<lparr> environment = Object [''A'' \<mapsto> Str '''', ''B'' \<mapsto> Undefined], prefix = '''',
         namespace = '''', target = '''' \<rparr> [''A''] = Inr (Str '''')
   \<and> fetch \<lparr> environment = Object [''A'' \<mapsto> Str '''', ''B'' \<mapsto> Undefined], prefix = '''',
         namespace = '''', target = '''' \<rparr> [''B''] = Inr Undefined
   \<and> fetch \<lparr> environment = Object [''A'' \<mapsto> Str '''', ''B'' \<mapsto> Undefined], prefix = '''',
         namespace = '''', target = '''' \<rparr> [''C'']
       = Inl (MissingEnvironmentKeyError ''C must be provided.'')"
  using
    has_iff_property_exists
      [of "\<lparr> environment = Object [''A'' \<mapsto> Str '''', ''B'' \<mapsto> Undefined], prefix = '''',
             namespace = '''', target = '''' \<rparr>"
          "[''A'' \<mapsto> Str '''', ''B'' \<mapsto> Undefined]" "''A''"]
    has_iff_property_exists
      [of "\<lparr> environment = Object [''A'' \<mapsto> Str '''', ''B'' \<mapsto> Undefined], prefix = '''',
             namespace = '''', target = '''' \<rparr>"
          "[''A'' \<mapsto> Str '''', ''B'' \<mapsto> Undefined]" "''B''"]
    has_iff_property_exists
      [of "\<lparr> environment = Object [''A'' \<mapsto> Str '''', ''B'' \<mapsto> Undefined], prefix = '''',
             namespace = '''', target = '''' \<rparr>"
          "[''A'' \<mapsto> Str '''', ''B'' \<mapsto> Undefined]" "''C''"]
  by (simp add: new_MissingEnvironmentKeyError_def)

text \<open>
  C5, as stated, fails when "present" is read as the specification defines it: with prefix
  \<open>some\<close>, namespace \<open>project\<close>, target \<open>test\<close> and environment
  \<open>{PROJECT_URL: undefined}\<close>, none of the six candidates is bound to a string, yet
  \<open>required("url")\<close> does not fail: it returns \<open>undefined\<close>.
\<close>

theorem required_succeeds_on_undefined_counterexample:
  "fetchKeysFor
     \<lparr> environment = Object [''PROJECT_URL'' \<mapsto> Undefined],
       prefix = ''some'', namespace = ''project'', target = ''test'' \<rparr> (keysFor ''url'')
     = [''SOME_PROJECT_TEST_URL'', ''PROJECT_TEST_URL'', ''SOME_PROJECT_URL'', ''PROJECT_URL'',
        ''SOME_URL'', ''URL'']
   \<and> [''PROJECT_URL'' \<mapsto> Undefined] ''SOME_PROJECT_TEST_URL'' = None
   \<and> [''PROJECT_URL'' \<mapsto> Undefined] ''PROJECT_TEST_URL'' = None
   \<and> [''PROJECT_URL'' \<mapsto> Undefined] ''SOME_PROJECT_URL'' = None
   \<and> [''PROJECT_URL'' \<mapsto> Undefined] ''PROJECT_URL'' = Some Undefined
   \<and> [''PROJECT_URL'' \<mapsto> Undefined] ''SOME_URL'' = None
   \<and> [''PROJECT_URL'' \<mapsto> Undefined] ''URL'' = None
   \<and> required
      \<lparr> environment = Object [''PROJECT_URL'' \<mapsto> Undefined],
        prefix = ''some'', namespace = ''project'', target = ''test'' \<rparr> ''url'' = Inr Undefined"
  by (simp add: required_def fetch_def has_def get_def cand_defs isNamespacePattern_def upper_defs)

text \<open>
  C5, amended. A candidate counts as there when the property exists in the environment,
  whatever it is bound to, \<open>undefined\<close> included. On an object, \<open>required\<close> fails if
  and only if none of the six candidates is there, and the error it raises is the
  \<open>MissingEnvironmentKeyError\<close> whose message lists the six candidates, in order, joined
  with \<open>or\<close>.
\<close>


theorem required_fails_iff_no_candidate:
  assumes "environment this = Object m"
    and "cs = fetchKeysFor this (keysFor key)"
  shows "((\<exists>err. required this key = Inl err) \<longleftrightarrow> (\<forall>c\<in>set cs. m c = None))
       \<and> (\<forall>err. required this key = Inl err \<longrightarrow>
            err = MissingEnvironmentKeyError
              (cs ! 0 @ '' or '' @ cs ! 1 @ '' or '' @ cs ! 2 @ '' or '' @ cs ! 3 @ '' or ''
                 @ cs ! 4 @ '' or '' @ cs ! 5 @ '' must be provided.''))
       \<and> length cs = 6"
proof -
  have a: "(\<exists>err. required this key = Inl err) \<longleftrightarrow> (\<forall>c\<in>set cs. m c = None)"
    using fetch_fails_iff [OF assms(1), of cs] assms(2) by (simp add: required_def)
  have len: "length cs = 6"
    using assms(2) by (simp add: fetchKeysFor_def)
  have msg: "new_MissingEnvironmentKeyError cs = MissingEnvironmentKeyError
              (cs ! 0 @ '' or '' @ cs ! 1 @ '' or '' @ cs ! 2 @ '' or '' @ cs ! 3 @ '' or ''
                 @ cs ! 4 @ '' or '' @ cs ! 5 @ '' must be provided.'')"
    unfolding assms(2) fetchKeysFor_def new_MissingEnvironmentKeyError_def by simp
  have b: "required this key = Inl err \<Longrightarrow> err = new_MissingEnvironmentKeyError cs" for err
    using fetch_error [OF assms(1), of cs err] assms(2) by (simp add: required_def)
  show ?thesis using a len msg b by metis
qed

text \<open>
  No candidate of the key \<open>missing\<close> is in the environment: \<open>required\<close> fails and the message
  names the six candidates.
\<close>

theorem required_fails_iff_no_candidate_witness:
  "required \<lparr> environment = Object [''OTHER'' \<mapsto> Str ''x''], prefix = ''some'',
       namespace = ''project'', target = ''test'' \<rparr> ''missing''
   = Inl (MissingEnvironmentKeyError
       ''SOME_PROJECT_TEST_MISSING or PROJECT_TEST_MISSING or SOME_PROJECT_MISSING or PROJECT_MISSING or SOME_MISSING or MISSING must be provided.'')"
proof -
  let ?m = "[''OTHER'' \<mapsto> Str ''x'']"
  let ?e = "\<lparr> environment = Object ?m, prefix = ''some'', namespace = ''project'',
              target = ''test'' \<rparr>"
  let ?cs = "[''SOME_PROJECT_TEST_MISSING'', ''PROJECT_TEST_MISSING'', ''SOME_PROJECT_MISSING'',
              ''PROJECT_MISSING'', ''SOME_MISSING'', ''MISSING'']"
  have e: "environment ?e = Object ?m" by simp
  have cs: "?cs = fetchKeysFor ?e (keysFor ''missing'')"
    by (simp add: cand_defs isNamespacePattern_def upper_defs)
  have none: "\<forall>c\<in>set ?cs. ?m c = None" by simp
  from required_fails_iff_no_candidate [OF e cs] none
  obtain err where "required ?e ''missing'' = Inl err"
    and "err = MissingEnvironmentKeyError
              (?cs ! 0 @ '' or '' @ ?cs ! 1 @ '' or '' @ ?cs ! 2 @ '' or '' @ ?cs ! 3 @ '' or ''
                 @ ?cs ! 4 @ '' or '' @ ?cs ! 5 @ '' must be provided.'')"
    by blast
  then show ?thesis by simp
qed

text \<open>
  C6. \<open>optional\<close> returns the result of \<open>required\<close> when that succeeds. When \<open>required\<close>
  fails, \<open>optional\<close> returns the default value if it is given and not empty, and otherwise
  raises the error that \<open>required\<close> raised; so with an empty-string default and no candidate
  in the environment it fails with the \<open>MissingEnvironmentKeyError\<close> of the six candidates
  instead of returning the empty string.
\<close>

theorem optional_default_policy:
  "(\<forall>v. required this key = Inr v \<longrightarrow> optional this key defaultValue = Inr v)
   \<and> (\<forall>err d. required this key = Inl err \<and> defaultValue = Some d \<and> d \<noteq> '''' \<longrightarrow>
         optional this key defaultValue = Inr (Str d))
   \<and> (\<forall>err. required this key = Inl err \<and> (defaultValue = None \<or> defaultValue = Some '''') \<longrightarrow>
         optional this key defaultValue = Inl err)
   \<and> (\<forall>m. environment this = Object m
          \<and> (\<forall>c\<in>set (fetchKeysFor this (keysFor key)). m c = None) \<longrightarrow>
         optional this key (Some '''')
           = Inl (new_MissingEnvironmentKeyError (fetchKeysFor this (keysFor key))))"
proof -
  have "optional this key (Some '''')
          = Inl (new_MissingEnvironmentKeyError (fetchKeysFor this (keysFor key)))"
    if env: "environment this = Object m"
      and none: "\<forall>c\<in>set (fetchKeysFor this (keysFor key)). m c = None" for m
  proof -
    obtain err where err: "required this key = Inl err"
      using fetch_fails_iff [OF env, of "fetchKeysFor this (keysFor key)"] none
      by (auto simp: required_def)
    then have "err = new_MissingEnvironmentKeyError (fetchKeysFor this (keysFor key))"
      using fetch_error [OF env] by (simp add: required_def)
    with err show ?thesis by (simp add: optional_def)
  qed
  then show ?thesis by (auto simp: optional_def)
qed

text \<open>
  The examples of the specification, on a resolver built with the defaults:
  \<open>optional("missing", "")\<close> fails, \<open>optional("missing", "fallback")\<close> gives the default, and
  a key that is there wins over the default.
\<close>

theorem optional_default_policy_witness:
  "optional \<lparr> environment = Object Map.empty, prefix = '''', namespace = '''',
       target = ''development'' \<rparr> ''missing'' (Some '''')
   = Inl (MissingEnvironmentKeyError
       ''__DEVELOPMENT_MISSING or _DEVELOPMENT_MISSING or __MISSING or _MISSING or _MISSING or MISSING must be provided.'')
   \<and> optional \<lparr> environment = Object Map.empty, prefix = '''', namespace = '''',
       target = ''development'' \<rparr> ''missing'' (Some ''fallback'') = Inr (Str ''fallback'')
   \<and> optional \<lparr> environment = Object [''MISSING'' \<mapsto> Str ''x''], prefix = '''', namespace = '''',
       target = ''development'' \<rparr> ''missing'' (Some ''fallback'') = Inr (Str ''x'')"
proof -
  let ?e = "\<lparr> environment = Object Map.empty, prefix = '''', namespace = '''',
              target = ''development'' \<rparr>"
  let ?e' = "\<lparr> environment = Object [''MISSING'' \<mapsto> Str ''x''], prefix = '''', namespace = '''',
               target = ''development'' \<rparr>"
  let ?err = "MissingEnvironmentKeyError
       ''__DEVELOPMENT_MISSING or _DEVELOPMENT_MISSING or __MISSING or _MISSING or _MISSING or MISSING must be provided.''"
  have r: "required ?e ''missing'' = Inl ?err"
    by (simp add: required_def fetch_def has_def new_MissingEnvironmentKeyError_def
        cand_defs isNamespacePattern_def upper_defs)
  have r': "required ?e' ''missing'' = Inr (Str ''x'')"
    by (simp add: required_def fetch_def has_def get_def cand_defs isNamespacePattern_def
        upper_defs)
  have "optional ?e ''missing'' (Some '''') = Inl ?err"
    using optional_default_policy [of ?e "''missing''" "Some ''''"] r by simp
  moreover have "optional ?e ''missing'' (Some ''fallback'') = Inr (Str ''fallback'')"
    using optional_default_policy [of ?e "''missing''" "Some ''fallback''"] r by simp
  moreover have "optional ?e' ''missing'' (Some ''fallback'') = Inr (Str ''x'')"
    using optional_default_policy [of ?e' "''missing''" "Some ''fallback''"] r' by simp
  ultimately show ?thesis by simp
qed

section \<open>Deriving a resolver for another target\<close>

text \<open>The target given to \<open>with\<close> has no effect on the instance it builds.\<close>

lemma Env_with_any_target: "Env_with this t1 = Env_with this t2"
  by (simp add: Env_with_def Reflect_construct_Env_def)

text \<open>
  C3 asks that \<open>with(newTarget)\<close> build a resolver with the environment, prefix and
  namespace of the original and the target \<open>newTarget\<close>. The code passes these four as four
  arguments to a constructor that reads one options object, so the new resolver is built
  from the properties of the environment instead. With environment
  \<open>{PROJECT_PRODUCTION_URL: "p"}\<close>, prefix \<open>some\<close>, namespace \<open>project\<close> and target
  \<open>test\<close>, \<open>with("production")\<close> gives the resolver of the defaults (empty environment,
  empty prefix and namespace, target \<open>development\<close>), on which \<open>required("url")\<close> fails; a
  resolver with the original's fields and target \<open>production\<close> returns \<open>p\<close>.
\<close>

theorem with_drops_its_arguments:
  "Env_with
     \<lparr> environment = Object [''PROJECT_PRODUCTION_URL'' \<mapsto> Str ''p''],
       prefix = ''some'', namespace = ''project'', target = ''test'' \<rparr> ''production''
   = \<lparr> environment = Object Map.empty, prefix = '''', namespace = '''',
       target = ''development'' \<rparr>
   \<and> required
      (Env_with
         \<lparr> environment = Object [''PROJECT_PRODUCTION_URL'' \<mapsto> Str ''p''],
           prefix = ''some'', namespace = ''project'', target = ''test'' \<rparr> ''production'') ''url''
     = Inl (MissingEnvironmentKeyError
         ''__DEVELOPMENT_URL or _DEVELOPMENT_URL or __URL or _URL or _URL or URL must be provided.'')
   \<and> required
      \<lparr> environment = Object [''PROJECT_PRODUCTION_URL'' \<mapsto> Str ''p''],
        prefix = ''some'', namespace = ''project'', target = ''production'' \<rparr> ''url''
     = Inr (Str ''p'')"
  by (simp add: Env_with_def Reflect_construct_Env_def options_of_def property_def
      Env_constructor_def DefaultEnvironment_def DefaultPrefix_def DefaultNamespace_def
      DefaultTarget_def required_def fetch_def has_def get_def
      new_MissingEnvironmentKeyError_def cand_defs isNamespacePattern_def upper_defs)

text \<open>
  C9. Calling \<open>with\<close> on the resolver at reference \<open>r\<close> leaves that resolver as it was: the
  call only adds a new instance to the store, at a reference other than \<open>r\<close>; every
  instance that was in the store, the one at \<open>r\<close> among them, has the same environment,
  prefix, namespace and target after the call, and \<open>required\<close> and \<open>optional\<close> on the
  original return after the call what they returned before.
\<close>

theorem with_in_frame:
  assumes "with_in s r tgt = Some (r', s')"
  shows "r < length s \<and> r' = length s \<and> r' \<noteq> r \<and> length s' = Suc (length s)
       \<and> (\<forall>i<length s. s' ! i = s ! i)
       \<and> s' ! r = s ! r
       \<and> environment (s' ! r) = environment (s ! r) \<and> prefix (s' ! r) = prefix (s ! r)
       \<and> namespace (s' ! r) = namespace (s ! r) \<and> target (s' ! r) = target (s ! r)
       \<and> (\<forall>key. required (s' ! r) key = required (s ! r) key)
       \<and> (\<forall>key d. optional (s' ! r) key d = optional (s ! r) key d)"
proof -
  from assms have r: "r < length s" and r': "r' = length s"
    and s': "s' = s @ [Env_with (s ! r) tgt]"
    by (auto simp: with_in_def new_in_def split: if_splits)
  have same: "s' ! i = s ! i" if "i < length s" for i
    using that s' by (simp add: nth_append)
  show ?thesis using r r' s' same by simp
qed

theorem with_in_frame_witness:
  "with_in [\<lparr> environment = Object [''URL'' \<mapsto> Str ''b''], prefix = ''some'',
              namespace = ''project'', target = ''test'' \<rparr>] 0 ''production''
     = Some (1, [\<lparr> environment = Object [''URL'' \<mapsto> Str ''b''], prefix = ''some'',
                   namespace = ''project'', target = ''test'' \<rparr>,
                 \<lparr> environment = Object Map.empty, prefix = '''', namespace = '''',
                   target = ''development'' \<rparr>])
   \<and> [\<lparr> environment = Object [''URL'' \<mapsto> Str ''b''], prefix = ''some'',
         namespace = ''project'', target = ''test'' \<rparr>,
       \<lparr> environment = Object Map.empty, prefix = '''', namespace = '''',
         target = ''development'' \<rparr>] ! 0
      = [\<lparr> environment = Object [''URL'' \<mapsto> Str ''b''], prefix = ''some'',
            namespace = ''project'', target = ''test'' \<rparr>] ! 0"
proof -
  let ?e = "\<lparr> environment = Object [''URL'' \<mapsto> Str ''b''], prefix = ''some'',
              namespace = ''project'', target = ''test'' \<rparr>"
  let ?n = "\<lparr> environment = Object Map.empty, prefix = '''', namespace = '''',
              target = ''development'' \<rparr>"
  have w: "with_in [?e] 0 ''production'' = Some (1, [?e, ?n])"
    by (simp add: with_in_def new_in_def Env_with_def Reflect_construct_Env_def options_of_def
        property_def Env_constructor_def DefaultEnvironment_def DefaultPrefix_def
        DefaultNamespace_def DefaultTarget_def)
  from with_in_frame [OF w] have "[?e, ?n] ! 0 = [?e] ! 0" by blast
  with w show ?thesis by simp
qed

section \<open>Segments\<close>

lemma join_Cons: "ks \<noteq> [] \<Longrightarrow> join sep (x # ks) = x @ sep @ join sep ks"
  by (cases ks) auto

lemma join_append:
  "xs \<noteq> [] \<Longrightarrow> ys \<noteq> [] \<Longrightarrow> join sep (xs @ ys) = join sep xs @ sep @ join sep ys"
proof (induction xs)
  case Nil then show ?case by simp
next
  case (Cons x xs)
  show ?case
  proof (cases xs)
    case Nil
    then show ?thesis using Cons.prems by (simp add: join_Cons)
  next
    case (Cons a as)
    then show ?thesis using Cons.IH Cons.prems by (simp add: join_Cons)
  qed
qed

lemma toUpperCase_append: "toUpperCase (a @ b) = toUpperCase a @ toUpperCase b"
  by (simp add: toUpperCase_def)

lemma toUpperCase_underscore: "toUpperCase (CHR ''_'' # s) = CHR ''_'' # toUpperCase s"
  by (simp add: upper_defs)

lemma join_split:
  "join ''_'' (split_NamespacePattern s) = map (\<lambda>c. if c = CHR ''.'' then CHR ''_'' else c) s"
proof (induction s)
  case Nil show ?case by simp
next
  case (Cons c cs)
  obtain t ts where sp: "split_NamespacePattern cs = t # ts"
    using split_ne [of cs] by (cases "split_NamespacePattern cs") auto
  show ?case
  proof (cases "isNamespacePattern c")
    case True
    then show ?thesis using Cons sp by (auto simp: isNamespacePattern_def)
  next
    case False
    then show ?thesis using Cons sp by (cases ts) (auto simp: isNamespacePattern_def)
  qed
qed

lemma empty_first:
  "ks \<noteq> [] \<Longrightarrow> toUpperCase (join ''_'' ('''' # ks)) = ''_'' @ toUpperCase (join ''_'' ks)"
  by (simp add: join_Cons toUpperCase_append toUpperCase_underscore)

lemma empty_between:
  "xs \<noteq> [] \<Longrightarrow> ks \<noteq> [] \<Longrightarrow>
   toUpperCase (join ''_'' (xs @ '''' # ks))
     = toUpperCase (join ''_'' xs) @ ''__'' @ toUpperCase (join ''_'' ks)"
  using join_append [of xs "'''' # ks" "''_''"]
  by (simp add: join_Cons toUpperCase_append toUpperCase_underscore)

lemma defaults_candidates:
  assumes "ks \<noteq> []"
  shows "fetchKeysFor
       (Env_constructor \<lparr> opt_namespace = None, opt_prefix = None, opt_environment = None,
          opt_target = None \<rparr>) ks
     = [ ''__DEVELOPMENT_'' @ withKeyFor ks, ''_DEVELOPMENT_'' @ withKeyFor ks,
         ''__'' @ withKeyFor ks, ''_'' @ withKeyFor ks, ''_'' @ withKeyFor ks, withKeyFor ks ]"
proof -
  have up: "toUpperCase (''development'' @ ''_'' @ s) = ''DEVELOPMENT_'' @ toUpperCase s" for s
    by (simp add: upper_defs)
  show ?thesis
    using assms
    by (simp add: Env_constructor_def DefaultPrefix_def DefaultNamespace_def DefaultTarget_def
        fetchKeysFor_def withPrefixesNamespacesTargetsKeyFor_def withNamespacesTargetsKeyFor_def
        withPrefixesNamespacesKeyFor_def withNamespacesKeyFor_def withPrefixesKeyFor_def
        withKeyFor_def prefixes_def namespaces_def targets_def isNamespacePattern_def
        join_Cons toUpperCase_underscore up [simplified])
qed

text \<open>
  C7. Splitting the empty string gives one empty segment, so an empty prefix, namespace or
  target puts one empty token into every candidate it is part of, and the join shows it as
  an underscore of its own: in front (an empty prefix, or an empty namespace where the
  candidate starts with the namespace) or doubled in the middle. Nothing is trimmed or
  collapsed: joining the segments of any string with \<open>_\<close> gives the string back with
  each \<open>.\<close> replaced by \<open>_\<close>, every delimiter still in its place. A resolver built
  with no options has the empty prefix and the empty namespace (and the target
  \<open>development\<close>), so its candidates start with the underscores of those empty tokens.
\<close>

theorem empty_segment_is_kept:
  "split_NamespacePattern '''' = ['''']
   \<and> (prefix this = '''' \<longrightarrow>
        prefixes this = ['''']
        \<and> withPrefixesNamespacesTargetsKeyFor this (keysFor key)
            = ''_'' @ withNamespacesTargetsKeyFor this (keysFor key)
        \<and> withPrefixesNamespacesKeyFor this (keysFor key)
            = ''_'' @ withNamespacesKeyFor this (keysFor key)
        \<and> withPrefixesKeyFor this (keysFor key) = ''_'' @ withKeyFor (keysFor key))
   \<and> (namespace this = '''' \<longrightarrow>
        namespaces this = ['''']
        \<and> withPrefixesNamespacesTargetsKeyFor this (keysFor key)
            = toUpperCase (join ''_'' (prefixes this)) @ ''__''
              @ toUpperCase (join ''_'' (targets this @ keysFor key))
        \<and> withNamespacesTargetsKeyFor this (keysFor key)
            = ''_'' @ toUpperCase (join ''_'' (targets this @ keysFor key))
        \<and> withPrefixesNamespacesKeyFor this (keysFor key)
            = toUpperCase (join ''_'' (prefixes this)) @ ''__'' @ withKeyFor (keysFor key)
        \<and> withNamespacesKeyFor this (keysFor key) = ''_'' @ withKeyFor (keysFor key))
   \<and> (target this = '''' \<longrightarrow>
        targets this = ['''']
        \<and> withPrefixesNamespacesTargetsKeyFor this (keysFor key)
            = toUpperCase (join ''_'' (prefixes this @ namespaces this)) @ ''__''
              @ withKeyFor (keysFor key)
        \<and> withNamespacesTargetsKeyFor this (keysFor key)
            = toUpperCase (join ''_'' (namespaces this)) @ ''__'' @ withKeyFor (keysFor key))
   \<and> join ''_'' (split_NamespacePattern s)
       = map (\<lambda>c. if c = CHR ''.'' then CHR ''_'' else c) s
   \<and> fetchKeysFor
        (Env_constructor \<lparr> opt_namespace = None, opt_prefix = None, opt_environment = None,
           opt_target = None \<rparr>) (keysFor key)
       = [ ''__DEVELOPMENT_'' @ withKeyFor (keysFor key),
           ''_DEVELOPMENT_'' @ withKeyFor (keysFor key),
           ''__'' @ withKeyFor (keysFor key), ''_'' @ withKeyFor (keysFor key),
           ''_'' @ withKeyFor (keysFor key), withKeyFor (keysFor key) ]"
proof -
  have k: "keysFor key \<noteq> []" by (simp add: keysFor_def split_ne)
  have p: "prefixes this \<noteq> []" and n: "namespaces this \<noteq> []" and t: "targets this \<noteq> []"
    by (simp_all add: prefixes_def namespaces_def targets_def split_ne)
  have P: "prefixes this = ['''']" if "prefix this = ''''"
    using that by (simp add: prefixes_def)
  have N: "namespaces this = ['''']" if "namespace this = ''''"
    using that by (simp add: namespaces_def)
  have T: "targets this = ['''']" if "target this = ''''"
    using that by (simp add: targets_def)
  have c1: "split_NamespacePattern '''' = ['''']" by simp
  have c2: "prefix this = '''' \<longrightarrow>
        prefixes this = ['''']
        \<and> withPrefixesNamespacesTargetsKeyFor this (keysFor key)
            = ''_'' @ withNamespacesTargetsKeyFor this (keysFor key)
        \<and> withPrefixesNamespacesKeyFor this (keysFor key)
            = ''_'' @ withNamespacesKeyFor this (keysFor key)
        \<and> withPrefixesKeyFor this (keysFor key) = ''_'' @ withKeyFor (keysFor key)"
    using k n P
    by (simp add: withPrefixesNamespacesTargetsKeyFor_def withNamespacesTargetsKeyFor_def
        withPrefixesNamespacesKeyFor_def withNamespacesKeyFor_def withPrefixesKeyFor_def
        withKeyFor_def empty_first)
  have c3: "namespace this = '''' \<longrightarrow>
        namespaces this = ['''']
        \<and> withPrefixesNamespacesTargetsKeyFor this (keysFor key)
            = toUpperCase (join ''_'' (prefixes this)) @ ''__''
              @ toUpperCase (join ''_'' (targets this @ keysFor key))
        \<and> withNamespacesTargetsKeyFor this (keysFor key)
            = ''_'' @ toUpperCase (join ''_'' (targets this @ keysFor key))
        \<and> withPrefixesNamespacesKeyFor this (keysFor key)
            = toUpperCase (join ''_'' (prefixes this)) @ ''__'' @ withKeyFor (keysFor key)
        \<and> withNamespacesKeyFor this (keysFor key) = ''_'' @ withKeyFor (keysFor key)"
    using k p t N
    by (simp add: withPrefixesNamespacesTargetsKeyFor_def withNamespacesTargetsKeyFor_def
        withPrefixesNamespacesKeyFor_def withNamespacesKeyFor_def
        withKeyFor_def empty_first empty_between)
  have c4: "target this = '''' \<longrightarrow>
        targets this = ['''']
        \<and> withPrefixesNamespacesTargetsKeyFor this (keysFor key)
            = toUpperCase (join ''_'' (prefixes this @ namespaces this)) @ ''__''
              @ withKeyFor (keysFor key)
        \<and> withNamespacesTargetsKeyFor this (keysFor key)
            = toUpperCase (join ''_'' (namespaces this)) @ ''__'' @ withKeyFor (keysFor key)"
  proof
    assume a: "target this = ''''"
    have "prefixes this @ namespaces this @ '''' # keysFor key
            = (prefixes this @ namespaces this) @ '''' # keysFor key" by simp
    then have "toUpperCase (join ''_'' (prefixes this @ namespaces this @ '''' # keysFor key))
          = toUpperCase (join ''_'' (prefixes this @ namespaces this)) @ ''__''
              @ toUpperCase (join ''_'' (keysFor key))"
      using empty_between [of "prefixes this @ namespaces this" "keysFor key"] p k by simp
    then show "targets this = ['''']
        \<and> withPrefixesNamespacesTargetsKeyFor this (keysFor key)
            = toUpperCase (join ''_'' (prefixes this @ namespaces this)) @ ''__''
              @ withKeyFor (keysFor key)
        \<and> withNamespacesTargetsKeyFor this (keysFor key)
            = toUpperCase (join ''_'' (namespaces this)) @ ''__'' @ withKeyFor (keysFor key)"
      using k n T [OF a]
      by (simp add: withPrefixesNamespacesTargetsKeyFor_def withNamespacesTargetsKeyFor_def
          withKeyFor_def empty_between)
  qed
  show ?thesis using c1 c2 c3 c4 join_split [of s] defaults_candidates [OF k] by blast
qed

text \<open>
  With prefix, namespace and target all empty the candidates of \<open>url\<close> carry three, two
  and one leading underscores; with the defaults of the constructor the target
  \<open>development\<close> stands between them.
\<close>

theorem empty_segment_is_kept_witness:
  "fetchKeysFor \<lparr> environment = Object Map.empty, prefix = '''', namespace = '''', target = '''' \<rparr>
     (keysFor ''url'')
   = [''___URL'', ''__URL'', ''__URL'', ''_URL'', ''_URL'', ''URL'']
   \<and> join ''_'' (split_NamespacePattern ''_a..b_'') = ''_a__b_''
   \<and> fetchKeysFor
        (Env_constructor \<lparr> opt_namespace = None, opt_prefix = None, opt_environment = None,
           opt_target = None \<rparr>) (keysFor ''url'')
       = [''__DEVELOPMENT_URL'', ''_DEVELOPMENT_URL'', ''__URL'', ''_URL'', ''_URL'', ''URL'']"
  using empty_segment_is_kept
    [of "\<lparr> environment = Object Map.empty, prefix = '''', namespace = '''', target = '''' \<rparr>"
        "''url''" "''_a..b_''"]
  by (simp add: fetchKeysFor_def keysFor_def withKeyFor_def isNamespacePattern_def upper_defs)

lemma split_tokens_no_delimiter:
  "t \<in> set (split_NamespacePattern s) \<Longrightarrow> c \<in> set t \<Longrightarrow> \<not> isNamespacePattern c"
proof (induction s arbitrary: t)
  case Nil then show ?case by simp
next
  case (Cons a s)
  obtain u us where sp: "split_NamespacePattern s = u # us"
    using split_ne [of s] by (cases "split_NamespacePattern s") auto
  show ?case
  proof (cases "isNamespacePattern a")
    case True
    then show ?thesis using Cons by auto
  next
    case False
    then have "t = a # u \<or> t \<in> set us" using Cons.prems(1) sp by simp
    then show ?thesis
    proof
      assume "t = a # u"
      then show ?thesis using Cons.IH [of u] Cons.prems(2) sp False by auto
    next
      assume "t \<in> set us"
      then show ?thesis using Cons.IH [of t] Cons.prems(2) sp by simp
    qed
  qed
qed

lemma hd_split_empty:
  "hd (split_NamespacePattern s) = [] \<longleftrightarrow> s = [] \<or> isNamespacePattern (hd s)"
  by (cases s) (auto split: list.splits)

lemma adjacent_Cons:
  "(\<exists>i. Suc i < length (c # cs) \<and> P ((c # cs) ! i) \<and> P ((c # cs) ! Suc i))
   \<longleftrightarrow> (cs \<noteq> [] \<and> P c \<and> P (hd cs)) \<or> (\<exists>i. Suc i < length cs \<and> P (cs ! i) \<and> P (cs ! Suc i))"
  (is "?L \<longleftrightarrow> ?R")
proof
  assume ?L
  then obtain i where i: "Suc i < length (c # cs)" "P ((c # cs) ! i)" "P ((c # cs) ! Suc i)"
    by blast
  show ?R
  proof (cases i)
    case 0
    then show ?thesis using i by (cases cs) auto
  next
    case (Suc j)
    then show ?thesis using i by auto
  qed
next
  assume ?R
  then show ?L
  proof
    assume "cs \<noteq> [] \<and> P c \<and> P (hd cs)"
    then have "Suc 0 < length (c # cs) \<and> P ((c # cs) ! 0) \<and> P ((c # cs) ! Suc 0)"
      by (cases cs) auto
    then show ?L by blast
  next
    assume "\<exists>i. Suc i < length cs \<and> P (cs ! i) \<and> P (cs ! Suc i)"
    then obtain i where "Suc i < length cs" "P (cs ! i)" "P (cs ! Suc i)" by blast
    then have "Suc (Suc i) < length (c # cs) \<and> P ((c # cs) ! Suc i) \<and> P ((c # cs) ! Suc (Suc i))"
      by simp
    then show ?L by blast
  qed
qed

lemma tl_split_empty:
  "[] \<in> set (tl (split_NamespacePattern s)) \<longleftrightarrow>
     s \<noteq> [] \<and> (isNamespacePattern (last s)
       \<or> (\<exists>i. Suc i < length s \<and> isNamespacePattern (s ! i) \<and> isNamespacePattern (s ! Suc i)))"
proof (induction s)
  case Nil show ?case by simp
next
  case (Cons c cs)
  obtain u us where sp: "split_NamespacePattern cs = u # us"
    using split_ne [of cs] by (cases "split_NamespacePattern cs") auto
  have hd: "u = [] \<longleftrightarrow> cs = [] \<or> isNamespacePattern (hd cs)"
    using hd_split_empty [of cs] sp by simp
  have tl: "[] \<in> set us \<longleftrightarrow>
     cs \<noteq> [] \<and> (isNamespacePattern (last cs)
       \<or> (\<exists>i. Suc i < length cs \<and> isNamespacePattern (cs ! i) \<and> isNamespacePattern (cs ! Suc i)))"
    using Cons.IH sp by simp
  show ?case
  proof (cases "isNamespacePattern c")
    case True
    have "[] \<in> set (tl (split_NamespacePattern (c # cs))) \<longleftrightarrow> u = [] \<or> [] \<in> set us"
      using True sp by auto
    then show ?thesis
      unfolding adjacent_Cons using True hd tl by (cases cs) auto
  next
    case False
    have "[] \<in> set (tl (split_NamespacePattern (c # cs))) \<longleftrightarrow> [] \<in> set us"
      using False sp by simp
    then show ?thesis
      unfolding adjacent_Cons using False tl by (cases cs) auto
  qed
qed

text \<open>
  C8, as stated, fails: the empty string splits into one empty token, and two delimiters in
  a row leave an empty token between them.
\<close>

theorem split_keeps_empty_tokens_counterexample:
  "[] \<in> set (split_NamespacePattern '''') \<and> [] \<in> set (keysFor ''a__b'')
   \<and> keysFor ''a__b'' = [''a'', '''', ''b'']"
  by (simp add: keysFor_def isNamespacePattern_def)

text \<open>
  C8, amended. Splitting on \<open>_\<close> and \<open>.\<close> gives a sequence with at least one token, and
  no token contains a delimiter. No token is empty exactly when the string is not empty,
  neither starts nor ends with a delimiter and has no two delimiters in a row; any other
  string has an empty token among its segments.
\<close>

theorem split_tokens_nonempty_iff:
  "split_NamespacePattern s \<noteq> []
   \<and> (\<forall>t\<in>set (split_NamespacePattern s). \<forall>c\<in>set t. \<not> isNamespacePattern c)
   \<and> ([] \<notin> set (split_NamespacePattern s) \<longleftrightarrow>
        s \<noteq> [] \<and> \<not> isNamespacePattern (hd s) \<and> \<not> isNamespacePattern (last s)
        \<and> (\<forall>i. Suc i < length s \<longrightarrow>
              \<not> (isNamespacePattern (s ! i) \<and> isNamespacePattern (s ! Suc i))))"
proof -
  obtain u us where sp: "split_NamespacePattern s = u # us"
    using split_ne [of s] by (cases "split_NamespacePattern s") auto
  have "[] \<in> set (split_NamespacePattern s) \<longleftrightarrow> u = [] \<or> [] \<in> set us"
    using sp by auto
  moreover have "u = [] \<longleftrightarrow> s = [] \<or> isNamespacePattern (hd s)"
    using hd_split_empty [of s] sp by simp
  moreover have "[] \<in> set us \<longleftrightarrow>
     s \<noteq> [] \<and> (isNamespacePattern (last s)
       \<or> (\<exists>i. Suc i < length s \<and> isNamespacePattern (s ! i) \<and> isNamespacePattern (s ! Suc i)))"
    using tl_split_empty [of s] sp by simp
  ultimately have "[] \<notin> set (split_NamespacePattern s) \<longleftrightarrow>
        s \<noteq> [] \<and> \<not> isNamespacePattern (hd s) \<and> \<not> isNamespacePattern (last s)
        \<and> (\<forall>i. Suc i < length s \<longrightarrow>
              \<not> (isNamespacePattern (s ! i) \<and> isNamespacePattern (s ! Suc i)))"
    by blast
  then show ?thesis
    using split_ne [of s] split_tokens_no_delimiter [of _ s] by blast
qed

theorem split_tokens_nonempty_iff_witness:
  "split_NamespacePattern ''some.project_url'' = [''some'', ''project'', ''url'']
   \<and> [] \<notin> set (split_NamespacePattern ''some.project_url'')
   \<and> [] \<in> set (split_NamespacePattern ''url_'')"
  using split_tokens_nonempty_iff [of "''some.project_url''"]
    split_tokens_nonempty_iff [of "''url_''"]
  by (simp add: isNamespacePattern_def)

text \<open>
  C10. When the segments of the prefix are the segments of the namespace, the fourth
  candidate (namespace and key) and the fifth (prefix and key) are the same string: the list
  of six has a duplicate, at most five different keys are searched, and the message of the
  \<open>MissingEnvironmentKeyError\<close> names that key twice.
\<close>

theorem duplicate_candidate:
  assumes "prefixes this = namespaces this"
    and "cs = fetchKeysFor this (keysFor key)"
  shows "cs ! 3 = cs ! 4 \<and> \<not> distinct cs \<and> card (set cs) \<le> 5
       \<and> new_MissingEnvironmentKeyError cs
           = MissingEnvironmentKeyError
              (cs ! 0 @ '' or '' @ cs ! 1 @ '' or '' @ cs ! 2 @ '' or '' @ cs ! 3 @ '' or ''
                 @ cs ! 3 @ '' or '' @ cs ! 5 @ '' must be provided.'')
       \<and> (\<forall>m. environment this = Object m \<and> (\<forall>c\<in>set cs. m c = None) \<longrightarrow>
            required this key = Inl (MissingEnvironmentKeyError
              (cs ! 0 @ '' or '' @ cs ! 1 @ '' or '' @ cs ! 2 @ '' or '' @ cs ! 3 @ '' or ''
                 @ cs ! 3 @ '' or '' @ cs ! 5 @ '' must be provided.'')))"
proof -
  have eq: "cs ! 3 = cs ! 4"
    using assms by (simp add: fetchKeysFor_def withNamespacesKeyFor_def withPrefixesKeyFor_def)
  have len: "length cs = 6" using assms(2) by (simp add: fetchKeysFor_def)
  have nd: "\<not> distinct cs"
    using eq unfolding assms(2) fetchKeysFor_def by simp
  have "set cs = set [cs ! 0, cs ! 1, cs ! 2, cs ! 3, cs ! 5]"
    using eq unfolding assms(2) fetchKeysFor_def by auto
  then have "card (set cs) \<le> length [cs ! 0, cs ! 1, cs ! 2, cs ! 3, cs ! 5]"
    using card_length [of "[cs ! 0, cs ! 1, cs ! 2, cs ! 3, cs ! 5]"] by simp
  then have card: "card (set cs) \<le> 5" by simp
  have msg: "new_MissingEnvironmentKeyError cs
           = MissingEnvironmentKeyError
              (cs ! 0 @ '' or '' @ cs ! 1 @ '' or '' @ cs ! 2 @ '' or '' @ cs ! 3 @ '' or ''
                 @ cs ! 3 @ '' or '' @ cs ! 5 @ '' must be provided.'')"
    using eq unfolding assms(2) fetchKeysFor_def new_MissingEnvironmentKeyError_def by simp
  have req: "required this key = Inl (new_MissingEnvironmentKeyError cs)"
    if env: "environment this = Object m" and none: "\<forall>c\<in>set cs. m c = None" for m
  proof -
    obtain err where err: "required this key = Inl err"
      using fetch_fails_iff [OF env, of cs] none assms(2) by (auto simp: required_def)
    then have "err = new_MissingEnvironmentKeyError cs"
      using fetch_error [OF env, of cs err] assms(2) by (simp add: required_def)
    with err show ?thesis by simp
  qed
  show ?thesis using eq nd card msg req by simp
qed

text \<open>
  The defaults: prefix and namespace are both empty, and \<open>_URL\<close> is listed twice.
\<close>

theorem duplicate_candidate_witness:
  "fetchKeysFor (Env_constructor \<lparr> opt_namespace = None, opt_prefix = None, opt_environment = None, opt_target = None \<rparr>) (keysFor ''url'')
     = [''__DEVELOPMENT_URL'', ''_DEVELOPMENT_URL'', ''__URL'', ''_URL'', ''_URL'', ''URL'']
   \<and> required (Env_constructor \<lparr> opt_namespace = None, opt_prefix = None, opt_environment = None, opt_target = None \<rparr>) ''url''
     = Inl (MissingEnvironmentKeyError
         ''__DEVELOPMENT_URL or _DEVELOPMENT_URL or __URL or _URL or _URL or URL must be provided.'')"
proof -
  let ?e = "Env_constructor \<lparr> opt_namespace = None, opt_prefix = None, opt_environment = None, opt_target = None \<rparr>"
  let ?cs = "[''__DEVELOPMENT_URL'', ''_DEVELOPMENT_URL'', ''__URL'', ''_URL'', ''_URL'', ''URL'']"
  have e: "?e = \<lparr> environment = Object Map.empty, prefix = '''', namespace = '''', target = ''development'' \<rparr>"
    by (simp add: Env_constructor_def DefaultEnvironment_def DefaultPrefix_def
        DefaultNamespace_def DefaultTarget_def)
  have pn: "prefixes ?e = namespaces ?e"
    by (simp add: e prefixes_def namespaces_def)
  have cs: "fetchKeysFor ?e (keysFor ''url'') = ?cs"
    by (simp add: e cand_defs isNamespacePattern_def upper_defs)
  have env: "environment ?e = Object Map.empty" by (simp add: e)
  have "required ?e ''url'' = Inl (MissingEnvironmentKeyError
              (?cs ! 0 @ '' or '' @ ?cs ! 1 @ '' or '' @ ?cs ! 2 @ '' or '' @ ?cs ! 3 @ '' or ''
                 @ ?cs ! 3 @ '' or '' @ ?cs ! 5 @ '' must be provided.''))"
    using duplicate_candidate [OF pn cs [symmetric]] env by blast
  then show ?thesis using cs by simp
qed

end
